theory Spec2Isabelle
  imports Main "HOL-Library.Sublist"
begin

section \<open>Strings, runes and the library functions the splitter calls\<close>

text \<open>
  A Go \<open>string\<close> is a sequence of bytes; it is modelled as \<open>string\<close>, the list of
  8-bit \<open>char\<close>s.  A \<open>rune\<close> is a signed integer holding a code point; the splitter only
  compares runes for equality, so \<open>int\<close> is used.  The functions of packages
  \<open>unicode/utf8\<close>, \<open>unicode\<close> and \<open>strings\<close> that \<open>unquote.go\<close> calls are written
  out below, following the Go standard library.  Masks are written as \<open>mod\<close>, left shifts
  as multiplications, and the bitwise or of disjoint bit fields as \<open>+\<close>.
\<close>

type_synonym rune = int

abbreviation RuneError :: rune where
  "RuneError \<equiv> 0xFFFD"

abbreviation byte :: "char \<Rightarrow> nat" where
  "byte c \<equiv> of_char c"

text \<open>\<open>utf8.DecodeRuneInString\<close>: the first rune of the string and its width in bytes;
  \<open>(RuneError, 0)\<close> on the empty string and \<open>(RuneError, 1)\<close> on an invalid encoding.\<close>

fun DecodeRuneInString :: "string \<Rightarrow> rune \<times> nat" where
  "DecodeRuneInString [] = (RuneError, 0)"
| "DecodeRuneInString (c0 # rest) =
    (let s0 = byte c0 in
     if s0 < 0x80 then (int s0, 1)
     else if s0 < 0xC2 \<or> 0xF4 < s0 then (RuneError, 1)
     else
       let sz = (if s0 < 0xE0 then 2 else if s0 < 0xF0 then 3 else (4::nat));
           lo = (if s0 = 0xE0 then 0xA0 else if s0 = 0xF0 then 0x90 else (0x80::nat));
           hi = (if s0 = 0xED then 0x9F else if s0 = 0xF4 then 0x8F else (0xBF::nat))
       in
       if length (c0 # rest) < sz then (RuneError, 1)
       else
         let s1 = byte (rest ! 0) in
         if s1 < lo \<or> hi < s1 then (RuneError, 1)
         else if sz \<le> 2 then (int ((s0 mod 32) * 64 + s1 mod 64), 2)
         else
           let s2 = byte (rest ! 1) in
           if s2 < 0x80 \<or> 0xBF < s2 then (RuneError, 1)
           else if sz \<le> 3 then
             (int ((s0 mod 16) * 4096 + (s1 mod 64) * 64 + s2 mod 64), 3)
           else
             let s3 = byte (rest ! 2) in
             if s3 < 0x80 \<or> 0xBF < s3 then (RuneError, 1)
             else (int ((s0 mod 8) * 262144 + (s1 mod 64) * 4096
                        + (s2 mod 64) * 64 + s3 mod 64), 4))"

text \<open>\<open>utf8.RuneStart\<close>: the byte is not a continuation byte.\<close>

definition RuneStart :: "char \<Rightarrow> bool" where
  "RuneStart b = (\<not> (0x80 \<le> byte b \<and> byte b \<le> 0xBF))"

text \<open>The backwards scan of \<open>utf8.DecodeLastRuneInString\<close> for the start of the last rune:
  \<open>for start--; start >= lim; start-- { if RuneStart(s[start]) { break } }\<close>.\<close>

function last_start :: "string \<Rightarrow> int \<Rightarrow> int \<Rightarrow> int" where
  "last_start s start lim =
    (if start \<ge> lim \<and> start \<ge> 0 then
       (if RuneStart (s ! nat start) then start else last_start s (start - 1) lim)
     else start)"
  by pat_completeness auto
termination
  by (relation "measure (\<lambda>(s, start, lim). nat (start + 1))") auto

declare last_start.simps [simp del]

definition DecodeLastRuneInString :: "string \<Rightarrow> rune \<times> nat" where
  "DecodeLastRuneInString s =
    (let end = int (length s) in
     if end = 0 then (RuneError, 0)
     else
       let r = byte (s ! nat (end - 1)) in
       if r < 0x80 then (int r, 1)
       else
         let lim = (if end - 4 < 0 then 0 else end - 4);
             start0 = last_start s (end - 2) lim;
             start = (if start0 < 0 then 0 else start0);
             (r', size) = DecodeRuneInString (drop (nat start) s)
         in if start + int size \<noteq> end then (RuneError, 1) else (r', size))"

text \<open>\<open>utf8.ValidRune\<close> and the encoder behind \<open>string(r)\<close> and \<open>Buffer.WriteRune\<close>.\<close>

definition ValidRune :: "rune \<Rightarrow> bool" where
  "ValidRune r = ((0 \<le> r \<and> r < 0xD800) \<or> (0xDFFF < r \<and> r \<le> 0x10FFFF))"

definition EncodeRune :: "rune \<Rightarrow> string" where
  "EncodeRune r =
    (if 0 \<le> r \<and> r < 0x80 then [char_of (nat r)]
     else if 0 \<le> r \<and> r < 0x800 then
       [char_of (0xC0 + nat r div 64), char_of (0x80 + nat r mod 64)]
     else if \<not> ValidRune r then [CHR 0xEF, CHR 0xBF, CHR 0xBD]
     else if r < 0x10000 then
       [char_of (0xE0 + nat r div 4096), char_of (0x80 + (nat r div 64) mod 64),
        char_of (0x80 + nat r mod 64)]
     else
       [char_of (0xF0 + nat r div 262144), char_of (0x80 + (nat r div 4096) mod 64),
        char_of (0x80 + (nat r div 64) mod 64), char_of (0x80 + nat r mod 64)])"

text \<open>\<open>strings.IndexByte\<close> and \<open>strings.Index\<close>; \<open>None\<close> stands for the result \<open>-1\<close>.\<close>

fun IndexByte :: "string \<Rightarrow> char \<Rightarrow> nat option" where
  "IndexByte [] c = None"
| "IndexByte (x # xs) c = (if x = c then Some 0 else map_option Suc (IndexByte xs c))"

fun Index :: "string \<Rightarrow> string \<Rightarrow> nat option" where
  "Index [] sub = (if sub = [] then Some 0 else None)"
| "Index (x # xs) sub =
    (if take (length sub) (x # xs) = sub then Some 0 else map_option Suc (Index xs sub))"

lemma DecodeRuneInString_width_pos: "s \<noteq> [] \<Longrightarrow> 0 < snd (DecodeRuneInString s)"
  by (cases s) (simp_all add: Let_def)

lemma DecodeRuneInString_width_le: "snd (DecodeRuneInString s) \<le> length s"
proof (cases s)
  case Nil then show ?thesis by simp
next
  case (Cons c0 rest)
  then show ?thesis
    by (cases rest) (simp_all add: Let_def Suc_le_eq)
qed

text \<open>The loop \<open>for i, r := range s { if r == utf8.RuneError { return i } }\<close> of
  \<open>strings.IndexRune\<close>, started at byte offset \<open>i\<close>.\<close>

function indexRuneError :: "nat \<Rightarrow> string \<Rightarrow> nat option" where
  "indexRuneError i s =
    (if s = [] then None
     else if fst (DecodeRuneInString s) = RuneError then Some i
     else indexRuneError (i + snd (DecodeRuneInString s)) (drop (snd (DecodeRuneInString s)) s))"
  by pat_completeness auto
termination
  by (relation "measure (\<lambda>(i, s). length s)") (auto simp add: DecodeRuneInString_width_pos)

declare indexRuneError.simps [simp del]

definition IndexRune :: "string \<Rightarrow> rune \<Rightarrow> nat option" where
  "IndexRune s r =
    (if 0 \<le> r \<and> r < 0x80 then IndexByte s (char_of (nat r))
     else if r = RuneError then indexRuneError 0 s
     else if \<not> ValidRune r then None
     else Index s (EncodeRune r))"

definition ContainsRune :: "string \<Rightarrow> rune \<Rightarrow> bool" where
  "ContainsRune s r = (IndexRune s r \<noteq> None)"

text \<open>\<open>strings.TrimLeft\<close> and \<open>strings.TrimRight\<close>, with their three paths: a cutset of
  one ASCII byte, an all-ASCII cutset, and the rune-wise path.\<close>

function trimLeftUnicode :: "string \<Rightarrow> string \<Rightarrow> string" where
  "trimLeftUnicode s cutset =
    (if s = [] then s
     else
       let d = (if byte (hd s) \<ge> 0x80 then DecodeRuneInString s else (int (byte (hd s)), 1))
       in if \<not> ContainsRune cutset (fst d) then s
          else trimLeftUnicode (drop (snd d) s) cutset)"
  by pat_completeness auto
termination
  by (relation "measure (\<lambda>(s, cutset). length s)")
     (auto simp add: DecodeRuneInString_width_pos split: if_splits)

declare trimLeftUnicode.simps [simp del]

definition TrimLeft :: "string \<Rightarrow> string \<Rightarrow> string" where
  "TrimLeft s cutset =
    (if s = [] \<or> cutset = [] then s
     else if length cutset = 1 \<and> byte (cutset ! 0) < 0x80 then
       dropWhile (\<lambda>b. b = cutset ! 0) s
     else if list_all (\<lambda>b. byte b < 0x80) cutset then
       dropWhile (\<lambda>b. b \<in> set cutset) s
     else trimLeftUnicode s cutset)"

lemma last_start_le: "last_start s start lim \<le> start"
proof (induction s start lim rule: last_start.induct)
  case (1 s start lim)
  show ?case
    using 1 by (subst last_start.simps) (auto split: if_splits)
qed

lemma DecodeLastRuneInString_width_pos: "s \<noteq> [] \<Longrightarrow> 0 < snd (DecodeLastRuneInString s)"
proof -
  assume ne: "s \<noteq> []"
  let ?e = "int (length s)"
  let ?lim = "if ?e - 4 < 0 then 0 else ?e - 4"
  have "last_start s (?e - 2) ?lim \<le> ?e - 2"
    by (rule last_start_le)
  then show ?thesis
    using ne by (auto simp add: DecodeLastRuneInString_def Let_def split: prod.splits)
qed

function trimRightUnicode :: "string \<Rightarrow> string \<Rightarrow> string" where
  "trimRightUnicode s cutset =
    (if s = [] then s
     else
       let d = (if byte (last s) \<ge> 0x80 then DecodeLastRuneInString s
                else (int (byte (last s)), 1))
       in if \<not> ContainsRune cutset (fst d) then s
          else trimRightUnicode (take (length s - snd d) s) cutset)"
  by pat_completeness auto
termination
  by (relation "measure (\<lambda>(s, cutset). length s)")
     (auto simp add: DecodeLastRuneInString_width_pos split: if_splits)

declare trimRightUnicode.simps [simp del]

definition TrimRight :: "string \<Rightarrow> string \<Rightarrow> string" where
  "TrimRight s cutset =
    (if s = [] \<or> cutset = [] then s
     else if length cutset = 1 \<and> byte (cutset ! 0) < 0x80 then
       rev (dropWhile (\<lambda>b. b = cutset ! 0) (rev s))
     else if list_all (\<lambda>b. byte b < 0x80) cutset then
       rev (dropWhile (\<lambda>b. b \<in> set cutset) (rev s))
     else trimRightUnicode s cutset)"

text \<open>\<open>unicode.IsSpace\<close>: the Latin-1 spaces, then the table \<open>White_Space\<close>.\<close>

definition IsSpace :: "rune \<Rightarrow> bool" where
  "IsSpace r =
    (if 0 \<le> r \<and> r \<le> 0xFF then
       r = 0x09 \<or> r = 0x0A \<or> r = 0x0B \<or> r = 0x0C \<or> r = 0x0D \<or> r = 0x20
       \<or> r = 0x85 \<or> r = 0xA0
     else
       r = 0x1680 \<or> (0x2000 \<le> r \<and> r \<le> 0x200A) \<or> r = 0x2028 \<or> r = 0x2029
       \<or> r = 0x202F \<or> r = 0x205F \<or> r = 0x3000)"

text \<open>\<open>strings.TrimLeftFunc\<close> and \<open>strings.TrimRightFunc\<close> for a predicate on runes.\<close>

function TrimLeftFunc :: "string \<Rightarrow> (rune \<Rightarrow> bool) \<Rightarrow> string" where
  "TrimLeftFunc s f =
    (if s = [] then []
     else if f (fst (DecodeRuneInString s)) then
       TrimLeftFunc (drop (snd (DecodeRuneInString s)) s) f
     else s)"
  by pat_completeness auto
termination
  by (relation "measure (\<lambda>(s, f). length s)") (auto simp add: DecodeRuneInString_width_pos)

declare TrimLeftFunc.simps [simp del]

text \<open>\<open>lastIndexFunc(s, f, false)\<close>: the byte offset of the last rune, read backwards,
  that does not satisfy \<open>f\<close>.\<close>

function lastIndexNotFunc :: "string \<Rightarrow> (rune \<Rightarrow> bool) \<Rightarrow> nat option" where
  "lastIndexNotFunc s f =
    (if s = [] then None
     else
       let i = length s - snd (DecodeLastRuneInString s)
       in if \<not> f (fst (DecodeLastRuneInString s)) then Some i
          else lastIndexNotFunc (take i s) f)"
  by pat_completeness auto
termination
  by (relation "measure (\<lambda>(s, f). length s)") (auto simp add: DecodeLastRuneInString_width_pos)

declare lastIndexNotFunc.simps [simp del]

definition TrimRightFunc :: "string \<Rightarrow> (rune \<Rightarrow> bool) \<Rightarrow> string" where
  "TrimRightFunc s f =
    (case lastIndexNotFunc s f of
       None \<Rightarrow> []
     | Some i \<Rightarrow>
         if byte (s ! i) \<ge> 0x80 then take (i + snd (DecodeRuneInString (drop i s))) s
         else take (i + 1) s)"

definition asciiSpace :: "char \<Rightarrow> bool" where
  "asciiSpace c = (c \<in> {CHR 0x09, CHR 0x0A, CHR 0x0B, CHR 0x0C, CHR 0x0D, CHR 0x20})"

text \<open>\<open>strings.TrimSpace\<close>: a byte-wise pass over leading and trailing ASCII spaces that
  hands over to the rune-wise functions at the first byte that is not ASCII.\<close>

function trimSpaceStop :: "string \<Rightarrow> string" where
  "trimSpaceStop s =
    (if s = [] then []
     else if byte (last s) \<ge> 0x80 then TrimRightFunc s IsSpace
     else if asciiSpace (last s) then trimSpaceStop (butlast s)
     else s)"
  by pat_completeness auto
termination
  by (relation "measure length") auto

declare trimSpaceStop.simps [simp del]

fun TrimSpace :: "string \<Rightarrow> string" where
  "TrimSpace [] = []"
| "TrimSpace (c # s) =
    (if byte c \<ge> 0x80 then TrimRightFunc (TrimLeftFunc (c # s) IsSpace) IsSpace
     else if asciiSpace c then TrimSpace s
     else trimSpaceStop (c # s))"

section \<open>The splitter of \<open>unquote.go\<close>\<close>

datatype error =
  UnterminatedSingleQuoteError
| UnterminatedDoubleQuoteError
| UnterminatedEscapeError

record SplitOptions =
  SplitChars :: string
  SingleChar :: rune
  DoubleChar :: rune
  EscapeChar :: rune
  DoubleEscapeChars :: string
  Limit :: int

definition DefaultSplitChars :: string where
  "DefaultSplitChars = [CHR 0x20, CHR 0x0A, CHR 0x09]"

definition DefaultSingleChar :: rune where
  "DefaultSingleChar = 0x27"

definition DefaultDoubleChar :: rune where
  "DefaultDoubleChar = 0x22"

definition DefaultEscapeChar :: rune where
  "DefaultEscapeChar = 0x5C"

definition DefaultDoubleEscapeChars :: string where
  "DefaultDoubleEscapeChars = [CHR 0x24, CHR 0x60, CHR 0x22, CHR 0x0A, CHR 0x5C]"

definition DefaultSplitOptions :: SplitOptions where
  "DefaultSplitOptions =
    \<lparr> SplitChars = DefaultSplitChars,
      SingleChar = DefaultSingleChar,
      DoubleChar = DefaultDoubleChar,
      EscapeChar = DefaultEscapeChar,
      DoubleEscapeChars = DefaultDoubleEscapeChars,
      Limit = -1 \<rparr>"

definition NoEscapeSplitOptions :: SplitOptions where
  "NoEscapeSplitOptions = DefaultSplitOptions \<lparr> EscapeChar := 0 \<rparr>"

text \<open>
  \<open>splitWord\<close> jumps between the labelled blocks \<open>raw\<close>, \<open>escape\<close>, \<open>single\<close> and
  \<open>double\<close>.  \<open>splitWord_at\<close> is the code from one label on: \<open>buf\<close> is the contents of
  the buffer, \<open>cur\<close> the variable \<open>cur\<close> of the loops of \<open>raw\<close> and \<open>double\<close> (the
  variable \<open>input\<close> in \<open>escape\<close> and \<open>single\<close>), and \<open>pre\<close> the part of \<open>input\<close>
  the loop has passed, \<open>input[0 : len(input)-len(cur)]\<close>.  The result is the error, or the
  word and the remainder.
\<close>

datatype label = Raw | Escape | Single | Double

lemma IndexByte_less: "IndexByte s c = Some i \<Longrightarrow> i < length s"
  by (induction s arbitrary: i) (auto split: if_splits)

lemma Index_less: "Index s sub = Some i \<Longrightarrow> sub \<noteq> [] \<Longrightarrow> i < length s"
  by (induction s arbitrary: i) (auto split: if_splits)

lemma indexRuneError_less: "indexRuneError k s = Some i \<Longrightarrow> i < k + length s"
proof (induction k s rule: indexRuneError.induct)
  case (1 k s)
  from "1.prems" show ?case
  proof (subst (asm) indexRuneError.simps, simp split: if_splits)
    assume ne: "s \<noteq> []"
      and rec: "indexRuneError (k + snd (DecodeRuneInString s))
                  (drop (snd (DecodeRuneInString s)) s) = Some i"
      and nerr: "fst (DecodeRuneInString s) \<noteq> RuneError"
    have "i < k + snd (DecodeRuneInString s) + length (drop (snd (DecodeRuneInString s)) s)"
      using "1.IH" [OF ne nerr rec] .
    then show "i < k + length s"
      using DecodeRuneInString_width_le [of s] by simp
  qed
qed

lemma EncodeRune_nonempty: "EncodeRune r \<noteq> []"
  by (simp add: EncodeRune_def)

lemma IndexRune_less: "IndexRune s r = Some i \<Longrightarrow> i < length s"
  using IndexByte_less [of s _ i] Index_less [of s "EncodeRune r" i]
    indexRuneError_less [of 0 s i]
  by (auto simp add: IndexRune_def EncodeRune_nonempty split: if_splits)

function splitWord_at ::
  "SplitOptions \<Rightarrow> label \<Rightarrow> string \<Rightarrow> string \<Rightarrow> string \<Rightarrow> error + (string \<times> string)"
where
  "splitWord_at opts Raw buf pre cur =
    (if cur = [] then Inr (buf @ pre, [])
     else
       let c = fst (DecodeRuneInString cur);
           l = snd (DecodeRuneInString cur)
       in
       if c = SingleChar opts then splitWord_at opts Single (buf @ pre) [] (drop l cur)
       else if c = DoubleChar opts then splitWord_at opts Double (buf @ pre) [] (drop l cur)
       else if c = EscapeChar opts then splitWord_at opts Escape (buf @ pre) [] (drop l cur)
       else if ContainsRune (SplitChars opts) c then Inr (buf @ pre, drop l cur)
       else splitWord_at opts Raw buf (pre @ take l cur) (drop l cur))"
| "splitWord_at opts Escape buf pre cur =
    (if cur = [] then Inl UnterminatedEscapeError
     else
       let c = fst (DecodeRuneInString cur);
           l = snd (DecodeRuneInString cur)
       in splitWord_at opts Raw (if c = 0x0A then buf else buf @ take l cur) [] (drop l cur))"
| "splitWord_at opts Single buf pre cur =
    (case IndexRune cur (SingleChar opts) of
       None \<Rightarrow> Inl UnterminatedSingleQuoteError
     | Some i \<Rightarrow> splitWord_at opts Raw (buf @ take i cur) [] (drop (i + 1) cur))"
| "splitWord_at opts Double buf pre cur =
    (if cur = [] then Inl UnterminatedDoubleQuoteError
     else
       let c = fst (DecodeRuneInString cur);
           l = snd (DecodeRuneInString cur);
           cur1 = drop l cur
       in
       if c = DoubleChar opts then splitWord_at opts Raw (buf @ pre) [] cur1
       else if c = EscapeChar opts then
         let c2 = fst (DecodeRuneInString cur1);
             l2 = snd (DecodeRuneInString cur1);
             cur2 = drop l2 cur1
         in
         if ContainsRune (DoubleEscapeChars opts) c2 then
           splitWord_at opts Double
             (buf @ pre @ (if c2 = 0x0A then [] else EncodeRune c2)) [] cur2
         else splitWord_at opts Double buf (pre @ take (l + l2) cur) cur2
       else splitWord_at opts Double buf (pre @ take l cur) cur1)"
  by pat_completeness auto
termination
  by (relation "measure (\<lambda>(opts, lab, buf, pre, cur). length cur)")
     (auto simp add: DecodeRuneInString_width_pos dest: IndexRune_less)

declare splitWord_at.simps [simp del]

definition splitWord :: "string \<Rightarrow> SplitOptions \<Rightarrow> error + (string \<times> string)" where
  "splitWord input opts = splitWord_at opts Raw [] [] input"

text \<open>The equations of \<open>splitWord_at\<close>, one for each branch of the code.\<close>

lemma raw_end: "splitWord_at opts Raw buf pre [] = Inr (buf @ pre, [])"
  by (simp add: splitWord_at.simps)

lemma raw_single:
  "cur \<noteq> [] \<Longrightarrow> fst (DecodeRuneInString cur) = SingleChar opts \<Longrightarrow>
   splitWord_at opts Raw buf pre cur =
     splitWord_at opts Single (buf @ pre) [] (drop (snd (DecodeRuneInString cur)) cur)"
  by (subst splitWord_at.simps) (simp add: Let_def)

lemma raw_double:
  "cur \<noteq> [] \<Longrightarrow> fst (DecodeRuneInString cur) \<noteq> SingleChar opts \<Longrightarrow>
   fst (DecodeRuneInString cur) = DoubleChar opts \<Longrightarrow>
   splitWord_at opts Raw buf pre cur =
     splitWord_at opts Double (buf @ pre) [] (drop (snd (DecodeRuneInString cur)) cur)"
  by (subst splitWord_at.simps) (simp add: Let_def)

lemma raw_escape:
  "cur \<noteq> [] \<Longrightarrow> fst (DecodeRuneInString cur) \<noteq> SingleChar opts \<Longrightarrow>
   fst (DecodeRuneInString cur) \<noteq> DoubleChar opts \<Longrightarrow>
   fst (DecodeRuneInString cur) = EscapeChar opts \<Longrightarrow>
   splitWord_at opts Raw buf pre cur =
     splitWord_at opts Escape (buf @ pre) [] (drop (snd (DecodeRuneInString cur)) cur)"
  by (subst splitWord_at.simps) (simp add: Let_def)

lemma raw_split:
  "cur \<noteq> [] \<Longrightarrow> fst (DecodeRuneInString cur) \<noteq> SingleChar opts \<Longrightarrow>
   fst (DecodeRuneInString cur) \<noteq> DoubleChar opts \<Longrightarrow>
   fst (DecodeRuneInString cur) \<noteq> EscapeChar opts \<Longrightarrow>
   ContainsRune (SplitChars opts) (fst (DecodeRuneInString cur)) \<Longrightarrow>
   splitWord_at opts Raw buf pre cur =
     Inr (buf @ pre, drop (snd (DecodeRuneInString cur)) cur)"
  by (subst splitWord_at.simps) (simp add: Let_def)

lemma raw_other:
  "cur \<noteq> [] \<Longrightarrow> fst (DecodeRuneInString cur) \<noteq> SingleChar opts \<Longrightarrow>
   fst (DecodeRuneInString cur) \<noteq> DoubleChar opts \<Longrightarrow>
   fst (DecodeRuneInString cur) \<noteq> EscapeChar opts \<Longrightarrow>
   \<not> ContainsRune (SplitChars opts) (fst (DecodeRuneInString cur)) \<Longrightarrow>
   splitWord_at opts Raw buf pre cur =
     splitWord_at opts Raw buf (pre @ take (snd (DecodeRuneInString cur)) cur)
       (drop (snd (DecodeRuneInString cur)) cur)"
  by (subst splitWord_at.simps) (simp add: Let_def)

lemma escape_end: "splitWord_at opts Escape buf pre [] = Inl UnterminatedEscapeError"
  by (simp add: splitWord_at.simps)

lemma escape_rune:
  "cur \<noteq> [] \<Longrightarrow>
   splitWord_at opts Escape buf pre cur =
     splitWord_at opts Raw
       (if fst (DecodeRuneInString cur) = 0x0A then buf
        else buf @ take (snd (DecodeRuneInString cur)) cur)
       [] (drop (snd (DecodeRuneInString cur)) cur)"
  by (subst splitWord_at.simps) (simp add: Let_def)

lemma single_none:
  "IndexRune cur (SingleChar opts) = None \<Longrightarrow>
   splitWord_at opts Single buf pre cur = Inl UnterminatedSingleQuoteError"
  by (simp add: splitWord_at.simps)

lemma single_some:
  "IndexRune cur (SingleChar opts) = Some i \<Longrightarrow>
   splitWord_at opts Single buf pre cur =
     splitWord_at opts Raw (buf @ take i cur) [] (drop (Suc i) cur)"
  by (simp add: splitWord_at.simps)

lemma double_end: "splitWord_at opts Double buf pre [] = Inl UnterminatedDoubleQuoteError"
  by (simp add: splitWord_at.simps)

lemma double_close:
  "cur \<noteq> [] \<Longrightarrow> fst (DecodeRuneInString cur) = DoubleChar opts \<Longrightarrow>
   splitWord_at opts Double buf pre cur =
     splitWord_at opts Raw (buf @ pre) [] (drop (snd (DecodeRuneInString cur)) cur)"
  by (subst splitWord_at.simps) (simp add: Let_def)

lemma double_escaped:
  "cur \<noteq> [] \<Longrightarrow> fst (DecodeRuneInString cur) \<noteq> DoubleChar opts \<Longrightarrow>
   fst (DecodeRuneInString cur) = EscapeChar opts \<Longrightarrow>
   cur1 = drop (snd (DecodeRuneInString cur)) cur \<Longrightarrow>
   ContainsRune (DoubleEscapeChars opts) (fst (DecodeRuneInString cur1)) \<Longrightarrow>
   splitWord_at opts Double buf pre cur =
     splitWord_at opts Double
       (buf @ pre @ (if fst (DecodeRuneInString cur1) = 0x0A then []
                     else EncodeRune (fst (DecodeRuneInString cur1))))
       [] (drop (snd (DecodeRuneInString cur1)) cur1)"
  by (subst splitWord_at.simps) (simp add: Let_def)

lemma double_unescaped:
  "cur \<noteq> [] \<Longrightarrow> fst (DecodeRuneInString cur) \<noteq> DoubleChar opts \<Longrightarrow>
   fst (DecodeRuneInString cur) = EscapeChar opts \<Longrightarrow>
   cur1 = drop (snd (DecodeRuneInString cur)) cur \<Longrightarrow>
   \<not> ContainsRune (DoubleEscapeChars opts) (fst (DecodeRuneInString cur1)) \<Longrightarrow>
   splitWord_at opts Double buf pre cur =
     splitWord_at opts Double buf
       (pre @ take (snd (DecodeRuneInString cur) + snd (DecodeRuneInString cur1)) cur)
       (drop (snd (DecodeRuneInString cur1)) cur1)"
  by (subst splitWord_at.simps) (simp add: Let_def)

lemma double_other:
  "cur \<noteq> [] \<Longrightarrow> fst (DecodeRuneInString cur) \<noteq> DoubleChar opts \<Longrightarrow>
   fst (DecodeRuneInString cur) \<noteq> EscapeChar opts \<Longrightarrow>
   splitWord_at opts Double buf pre cur =
     splitWord_at opts Double buf (pre @ take (snd (DecodeRuneInString cur)) cur)
       (drop (snd (DecodeRuneInString cur)) cur)"
  by (subst splitWord_at.simps) (simp add: Let_def)

lemmas splitWord_at_branch =
  raw_end raw_single raw_double raw_escape raw_split raw_other
  escape_end escape_rune single_none single_some
  double_end double_close double_escaped double_unescaped double_other

text \<open>Induction along the jumps of \<open>splitWord\<close>, one case for each branch.\<close>

lemma splitWord_at_induct
  [case_names raw_end raw_single raw_double raw_escape raw_split raw_other
     escape_end escape_rune single_none single_some
     double_end double_close double_escaped double_unescaped double_other]:
  fixes P :: "label \<Rightarrow> string \<Rightarrow> string \<Rightarrow> string \<Rightarrow> bool"
    and opts :: SplitOptions
  assumes "\<And>buf pre. P Raw buf pre []"
    and "\<And>buf pre cur. cur \<noteq> [] \<Longrightarrow> fst (DecodeRuneInString cur) = SingleChar opts \<Longrightarrow>
          P Single (buf @ pre) [] (drop (snd (DecodeRuneInString cur)) cur) \<Longrightarrow>
          P Raw buf pre cur"
    and "\<And>buf pre cur. cur \<noteq> [] \<Longrightarrow> fst (DecodeRuneInString cur) \<noteq> SingleChar opts \<Longrightarrow>
          fst (DecodeRuneInString cur) = DoubleChar opts \<Longrightarrow>
          P Double (buf @ pre) [] (drop (snd (DecodeRuneInString cur)) cur) \<Longrightarrow>
          P Raw buf pre cur"
    and "\<And>buf pre cur. cur \<noteq> [] \<Longrightarrow> fst (DecodeRuneInString cur) \<noteq> SingleChar opts \<Longrightarrow>
          fst (DecodeRuneInString cur) \<noteq> DoubleChar opts \<Longrightarrow>
          fst (DecodeRuneInString cur) = EscapeChar opts \<Longrightarrow>
          P Escape (buf @ pre) [] (drop (snd (DecodeRuneInString cur)) cur) \<Longrightarrow>
          P Raw buf pre cur"
    and "\<And>buf pre cur. cur \<noteq> [] \<Longrightarrow> fst (DecodeRuneInString cur) \<noteq> SingleChar opts \<Longrightarrow>
          fst (DecodeRuneInString cur) \<noteq> DoubleChar opts \<Longrightarrow>
          fst (DecodeRuneInString cur) \<noteq> EscapeChar opts \<Longrightarrow>
          ContainsRune (SplitChars opts) (fst (DecodeRuneInString cur)) \<Longrightarrow>
          P Raw buf pre cur"
    and "\<And>buf pre cur. cur \<noteq> [] \<Longrightarrow> fst (DecodeRuneInString cur) \<noteq> SingleChar opts \<Longrightarrow>
          fst (DecodeRuneInString cur) \<noteq> DoubleChar opts \<Longrightarrow>
          fst (DecodeRuneInString cur) \<noteq> EscapeChar opts \<Longrightarrow>
          \<not> ContainsRune (SplitChars opts) (fst (DecodeRuneInString cur)) \<Longrightarrow>
          P Raw buf (pre @ take (snd (DecodeRuneInString cur)) cur)
            (drop (snd (DecodeRuneInString cur)) cur) \<Longrightarrow>
          P Raw buf pre cur"
    and "\<And>buf pre. P Escape buf pre []"
    and "\<And>buf pre cur. cur \<noteq> [] \<Longrightarrow>
          P Raw (if fst (DecodeRuneInString cur) = 0x0A then buf
                 else buf @ take (snd (DecodeRuneInString cur)) cur)
            [] (drop (snd (DecodeRuneInString cur)) cur) \<Longrightarrow>
          P Escape buf pre cur"
    and "\<And>buf pre cur. IndexRune cur (SingleChar opts) = None \<Longrightarrow> P Single buf pre cur"
    and "\<And>buf pre cur i. IndexRune cur (SingleChar opts) = Some i \<Longrightarrow>
          P Raw (buf @ take i cur) [] (drop (Suc i) cur) \<Longrightarrow>
          P Single buf pre cur"
    and "\<And>buf pre. P Double buf pre []"
    and "\<And>buf pre cur. cur \<noteq> [] \<Longrightarrow> fst (DecodeRuneInString cur) = DoubleChar opts \<Longrightarrow>
          P Raw (buf @ pre) [] (drop (snd (DecodeRuneInString cur)) cur) \<Longrightarrow>
          P Double buf pre cur"
    and "\<And>buf pre cur cur1. cur \<noteq> [] \<Longrightarrow> fst (DecodeRuneInString cur) \<noteq> DoubleChar opts \<Longrightarrow>
          fst (DecodeRuneInString cur) = EscapeChar opts \<Longrightarrow>
          cur1 = drop (snd (DecodeRuneInString cur)) cur \<Longrightarrow>
          ContainsRune (DoubleEscapeChars opts) (fst (DecodeRuneInString cur1)) \<Longrightarrow>
          P Double
            (buf @ pre @ (if fst (DecodeRuneInString cur1) = 0x0A then []
                          else EncodeRune (fst (DecodeRuneInString cur1))))
            [] (drop (snd (DecodeRuneInString cur1)) cur1) \<Longrightarrow>
          P Double buf pre cur"
    and "\<And>buf pre cur cur1. cur \<noteq> [] \<Longrightarrow> fst (DecodeRuneInString cur) \<noteq> DoubleChar opts \<Longrightarrow>
          fst (DecodeRuneInString cur) = EscapeChar opts \<Longrightarrow>
          cur1 = drop (snd (DecodeRuneInString cur)) cur \<Longrightarrow>
          \<not> ContainsRune (DoubleEscapeChars opts) (fst (DecodeRuneInString cur1)) \<Longrightarrow>
          P Double buf
            (pre @ take (snd (DecodeRuneInString cur) + snd (DecodeRuneInString cur1)) cur)
            (drop (snd (DecodeRuneInString cur1)) cur1) \<Longrightarrow>
          P Double buf pre cur"
    and "\<And>buf pre cur. cur \<noteq> [] \<Longrightarrow> fst (DecodeRuneInString cur) \<noteq> DoubleChar opts \<Longrightarrow>
          fst (DecodeRuneInString cur) \<noteq> EscapeChar opts \<Longrightarrow>
          P Double buf (pre @ take (snd (DecodeRuneInString cur)) cur)
            (drop (snd (DecodeRuneInString cur)) cur) \<Longrightarrow>
          P Double buf pre cur"
  shows "P lab buf pre cur"
proof -
  have "opts' = opts \<longrightarrow> P lab buf pre cur" for opts'
  proof (induction opts' lab buf pre cur rule: splitWord_at.induct)
    case (1 opts' buf pre cur)
    show ?case
    proof
      assume eq: "opts' = opts"
      show "P Raw buf pre cur"
      proof (cases "cur = []")
        case True
        then show ?thesis using assms(1) by simp
      next
        case False
        let ?c = "fst (DecodeRuneInString cur)"
        show ?thesis
        proof (cases "?c = SingleChar opts")
          case True
          with False eq 1(1) [OF False refl refl] assms(2) show ?thesis by simp
        next
          case ns: False
          show ?thesis
          proof (cases "?c = DoubleChar opts")
            case True
            with False ns eq 1(2) [OF False refl refl] assms(3) show ?thesis by simp
          next
            case nd: False
            show ?thesis
            proof (cases "?c = EscapeChar opts")
              case True
              with False ns nd eq 1(3) [OF False refl refl] assms(4) show ?thesis by simp
            next
              case ne: False
              show ?thesis
              proof (cases "ContainsRune (SplitChars opts) ?c")
                case True
                with False ns nd ne assms(5) show ?thesis by simp
              next
                case nsp: False
                with False ns nd ne eq 1(4) [OF False refl refl] assms(6)
                show ?thesis by simp
              qed
            qed
          qed
        qed
      qed
    qed
  next
    case (2 opts' buf pre cur)
    show ?case
    proof
      assume eq: "opts' = opts"
      show "P Escape buf pre cur"
      proof (cases "cur = []")
        case True
        then show ?thesis using assms(7) by simp
      next
        case False
        with eq 2 [OF False refl refl] assms(8) [OF False, of buf pre] show ?thesis by simp
      qed
    qed
  next
    case (3 opts' buf pre cur)
    show ?case
    proof
      assume eq: "opts' = opts"
      show "P Single buf pre cur"
      proof (cases "IndexRune cur (SingleChar opts)")
        case None
        then show ?thesis by (rule assms(9))
      next
        case (Some i)
        with eq 3 [of i] assms(10) [OF Some, of buf pre] show ?thesis by simp
      qed
    qed
  next
    case (4 opts' buf pre cur)
    show ?case
    proof
      assume eq: "opts' = opts"
      show "P Double buf pre cur"
      proof (cases "cur = []")
        case True
        then show ?thesis using assms(11) by simp
      next
        case False
        let ?c = "fst (DecodeRuneInString cur)"
        let ?cur1 = "drop (snd (DecodeRuneInString cur)) cur"
        show ?thesis
        proof (cases "?c = DoubleChar opts")
          case True
          with False eq 4(1) [OF False refl refl refl] assms(12) show ?thesis by simp
        next
          case nd: False
          show ?thesis
          proof (cases "?c = EscapeChar opts")
            case True
            show ?thesis
            proof (cases "ContainsRune (DoubleEscapeChars opts) (fst (DecodeRuneInString ?cur1))")
              case c2: True
              have "P Double
                (buf @ pre @ (if fst (DecodeRuneInString ?cur1) = 0x0A then []
                              else EncodeRune (fst (DecodeRuneInString ?cur1))))
                [] (drop (snd (DecodeRuneInString ?cur1)) ?cur1)"
                using 4(2) [OF False refl refl refl _ _ refl refl refl] nd True c2 eq by simp
              then show ?thesis
                using assms(13) [OF False nd True refl c2] by simp
            next
              case c2: False
              have "P Double buf
                (pre @ take (snd (DecodeRuneInString cur) + snd (DecodeRuneInString ?cur1)) cur)
                (drop (snd (DecodeRuneInString ?cur1)) ?cur1)"
                using 4(3) [OF False refl refl refl _ _ refl refl refl] nd True c2 eq by simp
              then show ?thesis
                using assms(14) [OF False nd True refl c2] by simp
            qed
          next
            case ne: False
            with False nd eq 4(4) [OF False refl refl refl] assms(15) show ?thesis by simp
          qed
        qed
      qed
    qed
  qed
  then show ?thesis by simp
qed

lemma splitWord_at_remainder_le:
  "splitWord_at opts lab buf pre cur = Inr (w, rest) \<Longrightarrow> length rest \<le> length cur"
  by (induction lab buf pre cur rule: splitWord_at_induct [of _ opts])
     (auto simp add: splitWord_at_branch)

lemma splitWord_remainder_less:
  assumes "splitWord input opts = Inr (w, rest)" and "input \<noteq> []"
  shows "length rest < length input"
proof -
  let ?l = "snd (DecodeRuneInString input)"
  have pos: "0 < ?l"
    using assms(2) by (rule DecodeRuneInString_width_pos)
  have le: "?l \<le> length input"
    by (rule DecodeRuneInString_width_le)
  have "length rest \<le> length (drop ?l input)"
    using assms unfolding splitWord_def
    by (subst (asm) splitWord_at.simps)
       (auto simp add: Let_def split: if_splits dest!: splitWord_at_remainder_le)
  then show ?thesis
    using pos le by simp
qed

text \<open>
  The loop \<open>for len(input) > 0\<close> of \<open>SplitWithOptions\<close>, from one iteration on:
  \<open>splitChars\<close> is the local variable of that name, \<open>words\<close> the words appended so far.
  The result is the pair of the named results \<open>words\<close> and \<open>err\<close>.
\<close>

function split_loop ::
  "SplitOptions \<Rightarrow> string \<Rightarrow> string list \<Rightarrow> string \<Rightarrow> string list \<times> error option"
where
  "split_loop opts splitChars words input =
    (if input = [] then (words, None)
     else
       let c = fst (DecodeRuneInString input);
           l = snd (DecodeRuneInString input);
           next = drop l input
       in
       if ContainsRune splitChars c then split_loop opts splitChars words next
       else if c = EscapeChar opts \<and> next = [] then (words, Some UnterminatedEscapeError)
       else if c = EscapeChar opts \<and> fst (DecodeRuneInString next) = 0x0A then
         split_loop opts splitChars words (drop (snd (DecodeRuneInString next)) next)
       else
         (case splitWord input opts of
            Inl e \<Rightarrow> (words, Some e)
          | Inr (word, rest) \<Rightarrow>
              let words' = words @ [word] in
              if Limit opts = int (length words') + 1 then
                (let tail = TrimSpace rest
                 in (if length tail > 0 then words' @ [tail] else words', None))
              else split_loop opts splitChars words' rest))"
  by pat_completeness auto
termination
  by (relation "measure (\<lambda>(opts, splitChars, words, input). length input)")
     (auto simp add: DecodeRuneInString_width_pos dest: splitWord_remainder_less)

declare split_loop.simps [simp del]

definition SplitWithOptions ::
  "string \<Rightarrow> SplitOptions option \<Rightarrow> string list \<times> error option"
where
  "SplitWithOptions input optsp =
    (let opts = (case optsp of None \<Rightarrow> DefaultSplitOptions | Some given \<Rightarrow> given);
         splitChars = (if length (SplitChars opts) = 0 then DefaultSplitChars
                       else SplitChars opts)
     in
     if Limit opts = 0 then ([], None)
     else if Limit opts = 1 then
       (let input' = TrimLeft (TrimRight input splitChars) splitChars
        in (if length input' > 0 then [input'] else [], None))
     else split_loop opts splitChars [] input)"

definition Split :: "string \<Rightarrow> string list \<times> error option" where
  "Split input = SplitWithOptions input (Some DefaultSplitOptions)"

definition SplitN :: "string \<Rightarrow> int \<Rightarrow> string list \<times> error option" where
  "SplitN input n = SplitWithOptions input (Some (DefaultSplitOptions \<lparr> Limit := n \<rparr>))"

section \<open>The branches of the driver loop\<close>

lemma loop_end: "split_loop opts sc words [] = (words, None)"
  by (simp add: split_loop.simps)

lemma loop_skip:
  "input \<noteq> [] \<Longrightarrow> ContainsRune sc (fst (DecodeRuneInString input)) \<Longrightarrow>
   split_loop opts sc words input =
     split_loop opts sc words (drop (snd (DecodeRuneInString input)) input)"
  by (subst split_loop.simps) (simp add: Let_def)

lemma loop_escape_end:
  "input \<noteq> [] \<Longrightarrow> \<not> ContainsRune sc (fst (DecodeRuneInString input)) \<Longrightarrow>
   fst (DecodeRuneInString input) = EscapeChar opts \<Longrightarrow>
   drop (snd (DecodeRuneInString input)) input = [] \<Longrightarrow>
   split_loop opts sc words input = (words, Some UnterminatedEscapeError)"
  by (subst split_loop.simps) (simp add: Let_def)

lemma loop_continuation:
  "input \<noteq> [] \<Longrightarrow> \<not> ContainsRune sc (fst (DecodeRuneInString input)) \<Longrightarrow>
   fst (DecodeRuneInString input) = EscapeChar opts \<Longrightarrow>
   next = drop (snd (DecodeRuneInString input)) input \<Longrightarrow> next \<noteq> [] \<Longrightarrow>
   fst (DecodeRuneInString next) = 0x0A \<Longrightarrow>
   split_loop opts sc words input =
     split_loop opts sc words (drop (snd (DecodeRuneInString next)) next)"
  by (subst split_loop.simps) (simp add: Let_def)

text \<open>\<open>word_start\<close>: the loop reaches the call of \<open>splitWord\<close> on this input.\<close>

definition word_start :: "SplitOptions \<Rightarrow> string \<Rightarrow> string \<Rightarrow> bool" where
  "word_start opts sc input =
    (input \<noteq> [] \<and> \<not> ContainsRune sc (fst (DecodeRuneInString input)) \<and>
     (fst (DecodeRuneInString input) = EscapeChar opts \<longrightarrow>
        drop (snd (DecodeRuneInString input)) input \<noteq> [] \<and>
        fst (DecodeRuneInString (drop (snd (DecodeRuneInString input)) input)) \<noteq> 0x0A))"

lemma loop_error:
  "word_start opts sc input \<Longrightarrow> splitWord input opts = Inl e \<Longrightarrow>
   split_loop opts sc words input = (words, Some e)"
  unfolding word_start_def
  by (subst split_loop.simps) (auto simp add: Let_def)

lemma loop_limit:
  "word_start opts sc input \<Longrightarrow> splitWord input opts = Inr (word, rest) \<Longrightarrow>
   Limit opts = int (length words) + 2 \<Longrightarrow>
   split_loop opts sc words input =
     (if TrimSpace rest \<noteq> [] then words @ [word, TrimSpace rest] else words @ [word], None)"
  unfolding word_start_def
  by (subst split_loop.simps) (auto simp add: Let_def)

lemma loop_word:
  "word_start opts sc input \<Longrightarrow> splitWord input opts = Inr (word, rest) \<Longrightarrow>
   Limit opts \<noteq> int (length words) + 2 \<Longrightarrow>
   split_loop opts sc words input = split_loop opts sc (words @ [word]) rest"
  unfolding word_start_def
  by (subst split_loop.simps) (auto simp add: Let_def)

lemmas split_loop_branch =
  loop_end loop_skip loop_escape_end loop_continuation loop_error loop_limit loop_word

lemma split_loop_induct
  [case_names loop_end loop_skip loop_escape_end loop_continuation loop_error
     loop_limit loop_word]:
  fixes P :: "string list \<Rightarrow> string \<Rightarrow> bool"
    and opts :: SplitOptions
  assumes "\<And>words. P words []"
    and "\<And>words input. input \<noteq> [] \<Longrightarrow> ContainsRune sc (fst (DecodeRuneInString input)) \<Longrightarrow>
          P words (drop (snd (DecodeRuneInString input)) input) \<Longrightarrow> P words input"
    and "\<And>words input. input \<noteq> [] \<Longrightarrow>
          \<not> ContainsRune sc (fst (DecodeRuneInString input)) \<Longrightarrow>
          fst (DecodeRuneInString input) = EscapeChar opts \<Longrightarrow>
          drop (snd (DecodeRuneInString input)) input = [] \<Longrightarrow> P words input"
    and "\<And>words input next. input \<noteq> [] \<Longrightarrow>
          \<not> ContainsRune sc (fst (DecodeRuneInString input)) \<Longrightarrow>
          fst (DecodeRuneInString input) = EscapeChar opts \<Longrightarrow>
          next = drop (snd (DecodeRuneInString input)) input \<Longrightarrow> next \<noteq> [] \<Longrightarrow>
          fst (DecodeRuneInString next) = 0x0A \<Longrightarrow>
          P words (drop (snd (DecodeRuneInString next)) next) \<Longrightarrow> P words input"
    and "\<And>words input e. word_start opts sc input \<Longrightarrow> splitWord input opts = Inl e \<Longrightarrow>
          P words input"
    and "\<And>words input word rest. word_start opts sc input \<Longrightarrow>
          splitWord input opts = Inr (word, rest) \<Longrightarrow>
          Limit opts = int (length words) + 2 \<Longrightarrow> P words input"
    and "\<And>words input word rest. word_start opts sc input \<Longrightarrow>
          splitWord input opts = Inr (word, rest) \<Longrightarrow>
          Limit opts \<noteq> int (length words) + 2 \<Longrightarrow>
          P (words @ [word]) rest \<Longrightarrow> P words input"
  shows "P words input"
proof (induction "length input" arbitrary: words input rule: less_induct)
  case less
  let ?c = "fst (DecodeRuneInString input)"
  let ?next = "drop (snd (DecodeRuneInString input)) input"
  show ?case
  proof (cases "input = []")
    case True
    then show ?thesis using assms(1) by simp
  next
    case ne: False
    then have pos: "0 < snd (DecodeRuneInString input)"
      by (rule DecodeRuneInString_width_pos)
    have len: "0 < length input"
      using ne by simp
    have next_less: "length ?next < length input"
      using pos len by simp
    show ?thesis
    proof (cases "ContainsRune sc ?c")
      case True
      show ?thesis
        by (rule assms(2) [OF ne True]) (rule less [OF next_less])
    next
      case nosep: False
      show ?thesis
      proof (cases "word_start opts sc input")
        case True
        show ?thesis
        proof (cases "splitWord input opts")
          case (Inl e)
          show ?thesis by (rule assms(5) [OF True Inl])
        next
          case (Inr p)
          obtain word rest where p: "p = (word, rest)" by (cases p)
          have w: "splitWord input opts = Inr (word, rest)"
            using Inr p by simp
          have rest_less: "length rest < length input"
            using w ne by (rule splitWord_remainder_less)
          show ?thesis
          proof (cases "Limit opts = int (length words) + 2")
            case True
            show ?thesis by (rule assms(6) [OF \<open>word_start opts sc input\<close> w True])
          next
            case False
            show ?thesis
              by (rule assms(7) [OF True w False]) (rule less [OF rest_less])
          qed
        qed
      next
        case False
        then have esc: "?c = EscapeChar opts"
          and alt: "?next = [] \<or> fst (DecodeRuneInString ?next) = 0x0A"
          using ne nosep by (auto simp add: word_start_def)
        show ?thesis
        proof (cases "?next = []")
          case True
          show ?thesis by (rule assms(3) [OF ne nosep esc True])
        next
          case nn: False
          then have nl: "fst (DecodeRuneInString ?next) = 0x0A"
            using alt by simp
          have "length (drop (snd (DecodeRuneInString ?next)) ?next) \<le> length ?next"
            by simp
          then have l2: "length (drop (snd (DecodeRuneInString ?next)) ?next) < length input"
            using next_less by linarith
          show ?thesis
            by (rule assms(4) [OF ne nosep esc refl nn nl]) (rule less [OF l2])
        qed
      qed
    qed
  qed
qed

lemma default_fields:
  "SplitChars DefaultSplitOptions = DefaultSplitChars"
  "SingleChar DefaultSplitOptions = 0x27"
  "DoubleChar DefaultSplitOptions = 0x22"
  "EscapeChar DefaultSplitOptions = 0x5C"
  "DoubleEscapeChars DefaultSplitOptions = [CHR 0x24, CHR 0x60, CHR 0x22, CHR 0x0A, CHR 0x5C]"
  "Limit DefaultSplitOptions = -1"
  by (simp_all add: DefaultSplitOptions_def DefaultSingleChar_def
        DefaultDoubleChar_def DefaultEscapeChar_def DefaultDoubleEscapeChars_def)

lemma Split_loop: "Split input = split_loop DefaultSplitOptions DefaultSplitChars [] input"
  by (simp add: Split_def SplitWithOptions_def default_fields Let_def)

lemma IndexByte_first: "c \<notin> set b \<Longrightarrow> IndexByte (b @ c # t) c = Some (length b)"
  by (induction b) auto

lemma IndexByte_None_iff: "IndexByte s c = None \<longleftrightarrow> c \<notin> set s"
  by (induction s) auto

lemma IndexRune_ascii: "byte c < 0x80 \<Longrightarrow> IndexRune s (int (byte c)) = IndexByte s c"
  by (simp add: IndexRune_def)

lemma ContainsRune_ascii: "byte c < 0x80 \<Longrightarrow> ContainsRune s (int (byte c)) \<longleftrightarrow> c \<in> set s"
  by (simp add: ContainsRune_def IndexRune_ascii IndexByte_None_iff)

lemma IndexRune_quote: "IndexRune s 0x27 = IndexByte s (CHR 0x27)"
  using IndexRune_ascii [of "CHR 0x27" s] by simp

lemma ContainsRune_quote: "ContainsRune s 0x27 \<longleftrightarrow> CHR 0x27 \<in> set s"
  using ContainsRune_ascii [of "CHR 0x27" s] by simp

lemma ContainsRune_default:
  "byte c < 0x80 \<Longrightarrow>
   ContainsRune DefaultSplitChars (int (byte c)) \<longleftrightarrow> c \<in> {CHR 0x20, CHR 0x0A, CHR 0x09}"
  by (auto simp add: ContainsRune_ascii DefaultSplitChars_def)

section \<open>Claims\<close>

text \<open>
  C1.  The claim: a configuration whose \<open>SplitChars\<close> is empty gives, on every input, the
  result of the same configuration with the default \<open>SplitChars\<close>.  The driver replaces an
  empty \<open>SplitChars\<close> by the default in its local variable \<open>splitChars\<close>, but
  \<open>splitWord\<close> reads \<open>opts.SplitChars\<close>, which is still empty, so that no separator
  ends a word.  On the input \<open>a b\<close> the empty set gives the one word \<open>a b\<close> and the
  default set gives the two words \<open>a\<close> and \<open>b\<close>.
\<close>

theorem C1_empty_SplitChars_differs:
  "SplitWithOptions ''a b'' (Some (DefaultSplitOptions \<lparr> SplitChars := [] \<rparr>))
     = ([''a b''], None)
   \<and> SplitWithOptions ''a b'' (Some (DefaultSplitOptions \<lparr> SplitChars := DefaultSplitChars \<rparr>))
     = ([''a'', ''b''], None)"
  by code_simp

text \<open>
  C7.  With the default configuration, for every byte string \<open>b\<close> without the single
  quote, splitting \<open>'b'\<close> succeeds and returns the one word \<open>b\<close>, byte for byte.
\<close>

theorem C7_single_quoted_body_verbatim:
  assumes "CHR 0x27 \<notin> set b"
  shows "Split (CHR 0x27 # b @ [CHR 0x27]) = ([b], None)"
proof -
  let ?input = "CHR 0x27 # b @ [CHR 0x27]"
  have idx: "IndexRune (b @ [CHR 0x27]) (SingleChar DefaultSplitOptions) = Some (length b)"
    using assms IndexByte_first [of "CHR 0x27" b "[]"]
    by (simp add: default_fields IndexRune_quote)
  have "splitWord_at DefaultSplitOptions Single [] [] (b @ [CHR 0x27]) = Inr (b, [])"
    by (simp add: single_some [OF idx] raw_end)
  then have word: "splitWord ?input DefaultSplitOptions = Inr (b, [])"
    unfolding splitWord_def
    by (subst raw_single) (simp_all add: default_fields)
  have start: "word_start DefaultSplitOptions DefaultSplitChars ?input"
    by (simp add: word_start_def default_fields ContainsRune_quote DefaultSplitChars_def)
  have "split_loop DefaultSplitOptions DefaultSplitChars [] ?input = ([b], None)"
    by (simp add: loop_word [OF start word] default_fields loop_end)
  then show ?thesis
    by (simp add: Split_loop)
qed

theorem C7_single_quoted_body_verbatim_witness:
  "CHR 0x27 \<notin> set [CHR 0x5C, CHR 0x22, CHR 0x20, CHR 0xC3]
   \<and> Split (CHR 0x27 # [CHR 0x5C, CHR 0x22, CHR 0x20, CHR 0xC3] @ [CHR 0x27])
       = ([[CHR 0x5C, CHR 0x22, CHR 0x20, CHR 0xC3]], None)"
  using C7_single_quoted_body_verbatim [of "[CHR 0x5C, CHR 0x22, CHR 0x20, CHR 0xC3]"]
  by simp

text \<open>
  C6.  For every input and every configuration with \<open>Limit \<ge> 0\<close>, the number of words
  returned is at most \<open>Limit\<close>.
\<close>

lemma loop_length_bound:
  "int (length words) + 2 \<le> Limit opts \<Longrightarrow>
   int (length (fst (split_loop opts sc words input))) \<le> Limit opts"
  by (induction words input rule: split_loop_induct [where opts = opts and sc = sc])
     (auto simp add: split_loop_branch)

text \<open>
  C6, the theorem: \<open>0 \<le> Limit\<close> implies that the length of the word sequence returned
  by \<open>SplitWithOptions\<close> is at most \<open>Limit\<close>, whatever the input and the other fields.
\<close>

theorem C6_length_at_most_limit:
  assumes "0 \<le> Limit opts"
  shows "int (length (fst (SplitWithOptions input (Some opts)))) \<le> Limit opts"
proof -
  consider "Limit opts = 0" | "Limit opts = 1" | "2 \<le> Limit opts"
    using assms by linarith
  then show ?thesis
  proof cases
    case 1
    then show ?thesis by (simp add: SplitWithOptions_def)
  next
    case 2
    then show ?thesis by (simp add: SplitWithOptions_def Let_def)
  next
    case 3
    then show ?thesis
      using loop_length_bound [of "[]" opts]
      by (simp add: SplitWithOptions_def Let_def)
  qed
qed

theorem C6_length_at_most_limit_witness:
  "(0::int) \<le> Limit (DefaultSplitOptions \<lparr> Limit := 2 \<rparr>) \<and>
   int (length (fst (SplitWithOptions ''a b c d''
                       (Some (DefaultSplitOptions \<lparr> Limit := 2 \<rparr>)))))
     \<le> Limit (DefaultSplitOptions \<lparr> Limit := 2 \<rparr>)"
  using C6_length_at_most_limit [of "DefaultSplitOptions \<lparr> Limit := 2 \<rparr>" "''a b c d''"]
  by simp

end
